theory Spec2Isabelle
  imports Main "HOL-Library.Word"
begin

section \<open>gosseract: the Client in front of tesseract::TessBaseAPI (client.go)\<close>

text \<open>
  The Go file drives a C library through cgo. Everything that is Go code is embedded
  function by function, under the source's names. Two things are outside the Go code
  and are parameters of the model:
  \<^item> the file system, of which the code only asks \<^verbatim>\<open>os.Stat\<close>;
  \<^item> the C bridge (\<^verbatim>\<open>tessbridge.h\<close>: Create, Free, Version, Init, SetImage,
    SetVariable, SetPageSegMode, UTF8Text, HOCRText), a state machine over an engine
    state of any type \<open>'e\<close>.
  Every call that crosses into C is appended to a log, so that what the Go code sends to
  the engine, and in which order, is part of the result of each function.
  The C strings made by \<^verbatim>\<open>C.CString\<close> and released by \<^verbatim>\<open>C.free\<close> are
  passed as the Go strings they copy; a \<^verbatim>\<open>*C.char\<close> that stays \<^verbatim>\<open>nil\<close> is
  \<open>None\<close>.
\<close>

subsection \<open>Data\<close>

text \<open>\<^verbatim>\<open>C.TessBaseAPI\<close> is an opaque pointer; \<^verbatim>\<open>C.int\<close> has 32 bits.\<close>

type_synonym TessBaseAPI = nat
type_synonym cint = "32 word"

text \<open>
  \<^verbatim>\<open>PageSegMode\<close> is declared in another file of the package as a Go \<^verbatim>\<open>int\<close>
  (64 bits); \<^verbatim>\<open>C.int(*c.PageSegMode)\<close> keeps its low 32 bits.
\<close>

type_synonym PageSegMode = "64 word"

text \<open>
  The struct \<^verbatim>\<open>Client\<close>. Pointer fields are options (\<^verbatim>\<open>nil\<close> is \<open>None\<close>), the
  slice is a list (a \<^verbatim>\<open>nil\<close> slice has length 0, as \<open>[]\<close>), the map is a partial
  function, and \<open>None\<close> for the field \<open>Variables\<close> is the \<^verbatim>\<open>nil\<close> map of a
  \<^verbatim>\<open>Client\<close> that was not made by \<^verbatim>\<open>NewClient\<close>.
\<close>

record Client =
  api :: TessBaseAPI
  Trim :: bool
  TessdataPrefix :: "string option"
  Languages :: "string list"
  ImagePath :: string
  Variables :: "(string \<rightharpoonup> string) option"
  PageSegMode :: "PageSegMode option"
  ConfigFilePath :: string

text \<open>
  The errors the file returns, one constructor for each place that makes one:
  \<^item> \<open>StatError p\<close>: the error of \<^verbatim>\<open>os.Stat(p)\<close>, returned as it is by SetConfigFile;
  \<^item> \<open>ConfigIsDir\<close>: "the specified config file path seems to be a directory";
  \<^item> \<open>InitFailed res\<close>: "failed to initialize TessBaseAPI with code %d";
  \<^item> \<open>BindFailed key value\<close>: "failed to set variable with key(%s):value(%s)".
\<close>

datatype error =
    StatError string
  | ConfigIsDir
  | InitFailed cint
  | BindFailed string string

text \<open>The one run-time panic of the file: an assignment to an entry of a \<^verbatim>\<open>nil\<close> map.\<close>

datatype panic = AssignmentToEntryInNilMap

subsection \<open>The file system\<close>

text \<open>
  \<^verbatim>\<open>os.Stat\<close> returns a \<^verbatim>\<open>FileInfo\<close> or an error. A file system maps a path to the
  \<^verbatim>\<open>FileInfo\<close> that \<^verbatim>\<open>os.Stat\<close> finds there, and to \<open>None\<close> where it returns an
  error. It is an argument of every function that calls \<^verbatim>\<open>os.Stat\<close>, so two calls can
  see two different file systems.
\<close>

record FileInfo =
  IsDir :: bool

type_synonym filesystem = "string \<rightharpoonup> FileInfo"

definition os_Stat :: "filesystem \<Rightarrow> string \<Rightarrow> error + FileInfo" where
  "os_Stat fs name = (case fs name of None \<Rightarrow> Inl (StatError name) | Some info \<Rightarrow> Inr info)"

subsection \<open>The engine behind cgo\<close>

datatype call =
    CCreate TessBaseAPI
  | CFree TessBaseAPI
  | CVersion TessBaseAPI
  | CInit TessBaseAPI "string option" "string option" "string option"
  | CSetImage TessBaseAPI string
  | CSetVariable TessBaseAPI string string
  | CSetPageSegMode TessBaseAPI cint
  | CUTF8Text TessBaseAPI
  | CHOCRText TessBaseAPI

record 'e engine =
  tess_Create :: "'e \<Rightarrow> TessBaseAPI \<times> 'e"
  tess_Free :: "'e \<Rightarrow> TessBaseAPI \<Rightarrow> 'e"
  tess_Version :: "'e \<Rightarrow> TessBaseAPI \<Rightarrow> string \<times> 'e"
  tess_Init :: "'e \<Rightarrow> TessBaseAPI \<Rightarrow> string option \<Rightarrow> string option \<Rightarrow> string option \<Rightarrow> cint \<times> 'e"
  tess_SetImage :: "'e \<Rightarrow> TessBaseAPI \<Rightarrow> string \<Rightarrow> 'e"
  tess_SetVariable :: "'e \<Rightarrow> TessBaseAPI \<Rightarrow> string \<Rightarrow> string \<Rightarrow> bool \<times> 'e"
  tess_SetPageSegMode :: "'e \<Rightarrow> TessBaseAPI \<Rightarrow> cint \<Rightarrow> 'e"
  tess_UTF8Text :: "'e \<Rightarrow> TessBaseAPI \<Rightarrow> string \<times> 'e"
  tess_HOCRText :: "'e \<Rightarrow> TessBaseAPI \<Rightarrow> string \<times> 'e"

text \<open>The world a method runs in: the engine's state and the calls made so far, oldest first.\<close>

record 'e world =
  est :: 'e
  calls :: "call list"

definition C_Create :: "'e engine \<Rightarrow> 'e world \<Rightarrow> TessBaseAPI \<times> 'e world" where
  "C_Create eng w =
     (let (a, s) = tess_Create eng (est w)
      in (a, \<lparr>est = s, calls = calls w @ [CCreate a]\<rparr>))"

definition C_Free :: "'e engine \<Rightarrow> TessBaseAPI \<Rightarrow> 'e world \<Rightarrow> 'e world" where
  "C_Free eng a w = \<lparr>est = tess_Free eng (est w) a, calls = calls w @ [CFree a]\<rparr>"

definition C_Version :: "'e engine \<Rightarrow> TessBaseAPI \<Rightarrow> 'e world \<Rightarrow> string \<times> 'e world" where
  "C_Version eng a w =
     (let (v, s) = tess_Version eng (est w) a
      in (v, \<lparr>est = s, calls = calls w @ [CVersion a]\<rparr>))"

definition C_Init ::
  "'e engine \<Rightarrow> TessBaseAPI \<Rightarrow> string option \<Rightarrow> string option \<Rightarrow> string option \<Rightarrow> 'e world
     \<Rightarrow> cint \<times> 'e world" where
  "C_Init eng a datapath langs config w =
     (let (res, s) = tess_Init eng (est w) a datapath langs config
      in (res, \<lparr>est = s, calls = calls w @ [CInit a datapath langs config]\<rparr>))"

definition C_SetImage :: "'e engine \<Rightarrow> TessBaseAPI \<Rightarrow> string \<Rightarrow> 'e world \<Rightarrow> 'e world" where
  "C_SetImage eng a path w =
     \<lparr>est = tess_SetImage eng (est w) a path, calls = calls w @ [CSetImage a path]\<rparr>"

definition C_SetVariable ::
  "'e engine \<Rightarrow> TessBaseAPI \<Rightarrow> string \<Rightarrow> string \<Rightarrow> 'e world \<Rightarrow> bool \<times> 'e world" where
  "C_SetVariable eng a k v w =
     (let (res, s) = tess_SetVariable eng (est w) a k v
      in (res, \<lparr>est = s, calls = calls w @ [CSetVariable a k v]\<rparr>))"

definition C_SetPageSegMode :: "'e engine \<Rightarrow> TessBaseAPI \<Rightarrow> cint \<Rightarrow> 'e world \<Rightarrow> 'e world" where
  "C_SetPageSegMode eng a m w =
     \<lparr>est = tess_SetPageSegMode eng (est w) a m, calls = calls w @ [CSetPageSegMode a m]\<rparr>"

definition C_UTF8Text :: "'e engine \<Rightarrow> TessBaseAPI \<Rightarrow> 'e world \<Rightarrow> string \<times> 'e world" where
  "C_UTF8Text eng a w =
     (let (out, s) = tess_UTF8Text eng (est w) a
      in (out, \<lparr>est = s, calls = calls w @ [CUTF8Text a]\<rparr>))"

definition C_HOCRText :: "'e engine \<Rightarrow> TessBaseAPI \<Rightarrow> 'e world \<Rightarrow> string \<times> 'e world" where
  "C_HOCRText eng a w =
     (let (out, s) = tess_HOCRText eng (est w) a
      in (out, \<lparr>est = s, calls = calls w @ [CHOCRText a]\<rparr>))"

subsection \<open>The two functions of Go's package strings that the file calls\<close>

text \<open>
  \<^verbatim>\<open>strings.Join\<close>: nothing for no element, the element itself for one, and otherwise
  the first element followed, for each further element in order, by the separator and
  the element.
\<close>

definition strings_Join :: "string list \<Rightarrow> string \<Rightarrow> string" where
  "strings_Join elems sep =
     (case elems of
        [] \<Rightarrow> []
      | [x] \<Rightarrow> x
      | x # rest \<Rightarrow> foldl (\<lambda>b s. b @ sep @ s) x rest)"

text \<open>
  \<^verbatim>\<open>strings.Trim(s, cutset)\<close> removes the leading and the trailing characters of \<open>s\<close>
  that are in \<open>cutset\<close>: first the trailing ones, then the leading ones. For a cutset
  of ASCII characters, which is what the file passes, Go works on the bytes of \<open>s\<close>.
\<close>

definition trimRight :: "string \<Rightarrow> string \<Rightarrow> string" where
  "trimRight s cutset = rev (dropWhile (\<lambda>ch. ch \<in> set cutset) (rev s))"

definition trimLeft :: "string \<Rightarrow> string \<Rightarrow> string" where
  "trimLeft s cutset = dropWhile (\<lambda>ch. ch \<in> set cutset) s"

definition strings_Trim :: "string \<Rightarrow> string \<Rightarrow> string" where
  "strings_Trim s cutset =
     (if s = [] \<or> cutset = [] then s else trimLeft (trimRight s cutset) cutset)"

subsection \<open>Version, NewClient, Close\<close>

definition Version :: "'e engine \<Rightarrow> 'e world \<Rightarrow> string \<times> 'e world" where
  "Version eng w =
     (let (a, w1) = C_Create eng w;
          (version, w2) = C_Version eng a w1
      in (version, C_Free eng a w2))"

definition NewClient :: "'e engine \<Rightarrow> 'e world \<Rightarrow> Client \<times> 'e world" where
  "NewClient eng w =
     (let (a, w1) = C_Create eng w
      in (\<lparr>api = a, Trim = True, TessdataPrefix = None, Languages = [], ImagePath = [],
            Variables = Some Map.empty, PageSegMode = None, ConfigFilePath = []\<rparr>, w1))"

text \<open>
  \<^verbatim>\<open>Close\<close> has the named result \<^verbatim>\<open>err\<close>, which no statement assigns (the recover
  block is commented out): it frees the handle and returns the zero value of
  \<^verbatim>\<open>err\<close>. It writes no field of the Client.
\<close>

definition Close :: "'e engine \<Rightarrow> Client \<Rightarrow> 'e world \<Rightarrow> error option \<times> 'e world" where
  "Close eng c w =
     (let err = None;
          w1 = C_Free eng (api c) w
      in (err, w1))"

subsection \<open>The setters\<close>


definition SetLanguage :: "string list \<Rightarrow> Client \<Rightarrow> Client" where
  "SetLanguage langs c = c\<lparr>Languages := langs\<rparr>"

definition SetVariable :: "string \<Rightarrow> string \<Rightarrow> Client \<Rightarrow> panic + Client" where
  "SetVariable key val c =
     (case Variables c of
        None \<Rightarrow> Inl AssignmentToEntryInNilMap
      | Some m \<Rightarrow> Inr (c\<lparr>Variables := Some (m(key \<mapsto> val))\<rparr>))"



definition SetConfigFile :: "filesystem \<Rightarrow> string \<Rightarrow> Client \<Rightarrow> error option \<times> Client" where
  "SetConfigFile fs fpath c =
     (case os_Stat fs fpath of
        Inl err \<Rightarrow> (Some err, c)
      | Inr info \<Rightarrow>
          if IsDir info then (Some ConfigIsDir, c)
          else (None, c\<lparr>ConfigFilePath := fpath\<rparr>))"

subsection \<open>init\<close>

definition charLangs :: "Client \<Rightarrow> string option" where
  "charLangs c =
     (if length (Languages c) \<noteq> 0 then Some (strings_Join (Languages c) ''+'') else None)"

definition charConfig :: "filesystem \<Rightarrow> Client \<Rightarrow> string option" where
  "charConfig fs c =
     (case os_Stat fs (ConfigFilePath c) of
        Inr info \<Rightarrow> Some (ConfigFilePath c)
      | Inl err \<Rightarrow> None)"

definition init :: "'e engine \<Rightarrow> filesystem \<Rightarrow> Client \<Rightarrow> 'e world \<Rightarrow> error option \<times> 'e world" where
  "init eng fs c w =
     (let langs = charLangs c;
          config = charConfig fs c;
          (res, w1) = C_Init eng (api c) None langs config w
      in if res \<noteq> 0 then (Some (InitFailed res), w1) else (None, w1))"

subsection \<open>prepare\<close>

definition bind :: "'e engine \<Rightarrow> Client \<Rightarrow> string \<Rightarrow> string \<Rightarrow> 'e world \<Rightarrow> bool \<times> 'e world" where
  "bind eng c key val w = C_SetVariable eng (api c) key val w"

text \<open>
  \<^verbatim>\<open>for key, value := range c.Variables\<close>: Go leaves the order in which a map is
  ranged over open, and it may differ from one loop to the next. The order is an
  argument: the list of keys in the order this run of the loop visits them. A \<^verbatim>\<open>nil\<close>
  map is ranged over as an empty one.
\<close>

definition range_map :: "(string \<rightharpoonup> string) option \<Rightarrow> string list \<Rightarrow> (string \<times> string) list" where
  "range_map vars order =
     (case vars of
        None \<Rightarrow> []
      | Some m \<Rightarrow> List.map_filter (\<lambda>k. map_option (Pair k) (m k)) order)"

fun bind_each ::
  "'e engine \<Rightarrow> Client \<Rightarrow> (string \<times> string) list \<Rightarrow> 'e world \<Rightarrow> error option \<times> 'e world" where
  "bind_each eng c [] w = (None, w)"
| "bind_each eng c ((key, val) # rest) w =
     (let (ok, w1) = bind eng c key val w
      in if \<not> ok then (Some (BindFailed key val), w1) else bind_each eng c rest w1)"

definition prepare ::
  "'e engine \<Rightarrow> string list \<Rightarrow> Client \<Rightarrow> 'e world \<Rightarrow> error option \<times> 'e world" where
  "prepare eng order c w =
     (let w1 = C_SetImage eng (api c) (ImagePath c) w
      in case bind_each eng c (range_map (Variables c) order) w1 of
           (Some err, w2) \<Rightarrow> (Some err, w2)
         | (None, w2) \<Rightarrow>
             (case PageSegMode c of
                Some mode \<Rightarrow> (None, C_SetPageSegMode eng (api c) (ucast mode) w2)
              | None \<Rightarrow> (None, w2)))"

subsection \<open>Text and HTML\<close>

definition newline :: string where
  "newline = [CHR 0x0A]"

definition Text ::
  "'e engine \<Rightarrow> filesystem \<Rightarrow> string list \<Rightarrow> Client \<Rightarrow> 'e world
     \<Rightarrow> string \<times> error option \<times> 'e world" where
  "Text eng fs order c w =
     (case init eng fs c w of
        (Some err, w1) \<Rightarrow> ([], Some err, w1)
      | (None, w1) \<Rightarrow>
          (case prepare eng order c w1 of
             (Some err, w2) \<Rightarrow> ([], Some err, w2)
           | (None, w2) \<Rightarrow>
               (let (out, w3) = C_UTF8Text eng (api c) w2;
                    out = (if Trim c then strings_Trim out newline else out)
                in (out, None, w3))))"

definition HTML ::
  "'e engine \<Rightarrow> filesystem \<Rightarrow> string list \<Rightarrow> Client \<Rightarrow> 'e world
     \<Rightarrow> string \<times> error option \<times> 'e world" where
  "HTML eng fs order c w =
     (case init eng fs c w of
        (Some err, w1) \<Rightarrow> ([], Some err, w1)
      | (None, w1) \<Rightarrow>
          (case prepare eng order c w1 of
             (Some err, w2) \<Rightarrow> ([], Some err, w2)
           | (None, w2) \<Rightarrow>
               (let (out, w3) = C_HOCRText eng (api c) w2
                in (out, None, w3))))"

section \<open>Notions the properties are stated with\<close>

text \<open>
  Joining as the specification words it: the elements in order, a single separator
  between two neighbours, nothing before the first element and nothing after the last.
\<close>

fun join_with :: "string \<Rightarrow> string list \<Rightarrow> string" where
  "join_with sep [] = []"
| "join_with sep [x] = x"
| "join_with sep (x # y # ys) = x @ sep @ join_with sep (y # ys)"

text \<open>Cutting a string at every occurrence of a delimiter, the way an identifier is read back.\<close>

fun split_on :: "char \<Rightarrow> string \<Rightarrow> string list" where
  "split_on d [] = [[]]"
| "split_on d (x # xs) =
     (if x = d then [] # split_on d xs
      else (case split_on d xs of [] \<Rightarrow> [[x]] | y # ys \<Rightarrow> (x # y) # ys))"

text \<open>The specification's name for the two errors of SetConfigFile.\<close>

definition ConfigFileError :: "error \<Rightarrow> bool" where
  "ConfigFileError e = (case e of StatError p \<Rightarrow> True | ConfigIsDir \<Rightarrow> True | _ \<Rightarrow> False)"

text \<open>The call that binds one entry of the map, and the calls that query a result.\<close>

definition bind_call :: "Client \<Rightarrow> string \<times> string \<Rightarrow> call" where
  "bind_call c kv = CSetVariable (api c) (fst kv) (snd kv)"

definition extraction_call :: "call \<Rightarrow> bool" where
  "extraction_call x = (case x of CUTF8Text a \<Rightarrow> True | CHOCRText a \<Rightarrow> True | _ \<Rightarrow> False)"

text \<open>
  The engine calls of one run of Text or HTML that ends with the error \<open>err\<close> (or with
  none), \<open>query\<close> being the call that asks for the text or the markup: Init alone when
  Init failed; Init, SetImage and the bindings in the order of the loop up to and with
  the refused one when a binding failed; and Init, SetImage, every binding, the page
  segmentation mode if one is set, and the query when nothing failed.
\<close>

definition commit_calls ::
  "Client \<Rightarrow> filesystem \<Rightarrow> string list \<Rightarrow> call \<Rightarrow> error option \<Rightarrow> call list \<Rightarrow> bool" where
  "commit_calls c fs order query err new =
     (case err of
        None \<Rightarrow>
          new = CInit (api c) None (charLangs c) (charConfig fs c)
            # CSetImage (api c) (ImagePath c)
            # map (bind_call c) (range_map (Variables c) order)
            @ (case PageSegMode c of None \<Rightarrow> [] | Some m \<Rightarrow> [CSetPageSegMode (api c) (ucast m)])
            @ [query]
      | Some (InitFailed res) \<Rightarrow>
          res \<noteq> 0 \<and> new = [CInit (api c) None (charLangs c) (charConfig fs c)]
      | Some (BindFailed k v) \<Rightarrow>
          (\<exists>done rest. range_map (Variables c) order = done @ (k, v) # rest
             \<and> new = CInit (api c) None (charLangs c) (charConfig fs c)
                 # CSetImage (api c) (ImagePath c)
                 # map (bind_call c) done @ [CSetVariable (api c) k v])
      | Some e \<Rightarrow> False)"

text \<open>
  A world with an empty log, and a world whose log is put after earlier calls: what a
  method does depends on the engine's state only, never on the log.
\<close>

definition fresh :: "'e \<Rightarrow> 'e world" where
  "fresh s = \<lparr>est = s, calls = []\<rparr>"

definition rebase :: "call list \<Rightarrow> 'e world \<Rightarrow> 'e world" where
  "rebase cs w = \<lparr>est = est w, calls = cs @ calls w\<rparr>"


section \<open>Concrete engines, file systems and clients\<close>

text \<open>
  An engine whose state is whether the last Init was given a parameter file. Init
  fails with code -1 for the language "xxx", SetVariable accepts the one variable
  \<^verbatim>\<open>tessedit_char_whitelist\<close>, and the text recognised is one of two strings, by
  the state.
\<close>

definition demo_engine :: "string \<Rightarrow> string \<Rightarrow> bool engine" where
  "demo_engine with_config without_config =
     \<lparr>tess_Create = (\<lambda>s. (1, s)),
      tess_Free = (\<lambda>s a. s),
      tess_Version = (\<lambda>s a. (''4.1.1'', s)),
      tess_Init = (\<lambda>s a d l cf. (if l = Some ''xxx'' then - 1 else 0, cf \<noteq> None)),
      tess_SetImage = (\<lambda>s a p. s),
      tess_SetVariable = (\<lambda>s a k v. (k = ''tessedit_char_whitelist'', s)),
      tess_SetPageSegMode = (\<lambda>s a m. s),
      tess_UTF8Text = (\<lambda>s a. (if s then with_config else without_config, s)),
      tess_HOCRText = (\<lambda>s a. (if s then with_config else without_config, s))\<rparr>"

definition digits_engine :: "bool engine" where
  "digits_engine = demo_engine ''123'' ''l23''"

text \<open>An engine that reads "Hello World", between newlines or between spaces.\<close>

definition hello_engine :: "bool engine" where
  "hello_engine = demo_engine ''\<newline>Hello World\<newline>'' '' Hello World ''"



definition world0 :: "bool world" where
  "world0 = fresh False"

text \<open>Three file systems: the path "cfg" is a file, is a directory, is missing.\<close>

definition fs_file :: filesystem where
  "fs_file = [''cfg'' \<mapsto> \<lparr>IsDir = False\<rparr>]"

definition fs_dir :: filesystem where
  "fs_dir = [''cfg'' \<mapsto> \<lparr>IsDir = True\<rparr>]"

definition fs_none :: filesystem where
  "fs_none = Map.empty"

text \<open>The client NewClient makes with the demo engines, and the world it leaves.\<close>

definition client0 :: Client where
  "client0 = fst (NewClient digits_engine world0)"

definition world1 :: "bool world" where
  "world1 = snd (NewClient digits_engine world0)"

text \<open>The same client after \<^verbatim>\<open>SetConfigFile("cfg")\<close> on the file system where it is a file.\<close>

definition client_cfg :: Client where
  "client_cfg = snd (SetConfigFile fs_file ''cfg'' client0)"

text \<open>Clients with a language the demo engines refuse, and with a variable they refuse.\<close>

definition client_xxx :: Client where
  "client_xxx = SetLanguage [''xxx''] client0"

definition client_foo :: Client where
  "client_foo = (case SetVariable ''foo'' ''1'' client0 of Inr c \<Rightarrow> c | Inl p \<Rightarrow> client0)"


definition client_two :: Client where
  "client_two =
     client0\<lparr>Variables := Some [''foo'' \<mapsto> ''1'', ''tessedit_char_whitelist'' \<mapsto> ''abc'']\<rparr>"


section \<open>Facts about the model\<close>

subsection \<open>strings.Join and strings.Trim\<close>

lemma foldl_sep: "foldl (\<lambda>b s. b @ sep @ s) x rest = x @ concat (map (\<lambda>s. sep @ s) rest)"
  by (induction rest arbitrary: x) simp_all

lemma join_with_Cons: "join_with sep (x # rest) = x @ concat (map (\<lambda>s. sep @ s) rest)"
  by (induction rest arbitrary: x) simp_all

lemma strings_Join_Cons: "strings_Join (x # rest) sep = x @ concat (map (\<lambda>s. sep @ s) rest)"
  by (cases rest) (simp_all add: strings_Join_def foldl_sep)

lemma strings_Join_join_with: "strings_Join elems sep = join_with sep elems"
proof (cases elems)
  case Nil
  then show ?thesis by (simp add: strings_Join_def)
next
  case (Cons x rest)
  then show ?thesis
    by (simp only: strings_Join_Cons join_with_Cons)
qed

lemma split_on_append: "d \<notin> set x \<Longrightarrow> split_on d (x @ d # rest) = x # split_on d rest"
  by (induction x) auto

lemma split_on_plain: "d \<notin> set x \<Longrightarrow> split_on d x = [x]"
  by (induction x) auto

lemma split_on_concat:
  "d \<notin> set x \<Longrightarrow> \<forall>y \<in> set rest. d \<notin> set y \<Longrightarrow>
     split_on d (x @ concat (map (\<lambda>s. [d] @ s) rest)) = x # rest"
proof (induction rest arbitrary: x)
  case Nil
  then show ?case by (simp add: split_on_plain)
next
  case (Cons y rest)
  then have "split_on d (y @ concat (map (\<lambda>s. [d] @ s) rest)) = y # rest" by simp
  with Cons.prems show ?case by (simp add: split_on_append)
qed

lemma split_on_join_with:
  assumes "elems \<noteq> []" and "\<forall>x \<in> set elems. d \<notin> set x"
  shows "split_on d (join_with [d] elems) = elems"
proof (cases elems)
  case Nil
  with assms show ?thesis by simp
next
  case (Cons a rest)
  with assms have "d \<notin> set a" and "\<forall>y \<in> set rest. d \<notin> set y" by simp_all
  from split_on_concat [OF this] Cons show ?thesis by (simp only: join_with_Cons)
qed

lemma takeWhile_replicate:
  "takeWhile (\<lambda>ch. ch = x) xs = replicate (length (takeWhile (\<lambda>ch. ch = x) xs)) x"
  by (induction xs) simp_all

lemma dropWhile_split: "\<exists>n. xs = replicate n x @ dropWhile (\<lambda>ch. ch = x) xs"
proof -
  have "xs = takeWhile (\<lambda>ch. ch = x) xs @ dropWhile (\<lambda>ch. ch = x) xs" by simp
  with takeWhile_replicate [of x xs] show ?thesis by metis
qed

lemma trimRight_split: "\<exists>m. s = trimRight s [x] @ replicate m x"
proof -
  from dropWhile_split [of "rev s" x] obtain m where
    "rev s = replicate m x @ dropWhile (\<lambda>ch. ch = x) (rev s)" by blast
  then have "rev (rev s) = rev (replicate m x @ dropWhile (\<lambda>ch. ch = x) (rev s))" by simp
  then have "s = trimRight s [x] @ replicate m x" by (simp add: trimRight_def)
  then show ?thesis by blast
qed

lemma trimLeft_split: "\<exists>n. s = replicate n x @ trimLeft s [x]"
  using dropWhile_split [of s x] by (simp add: trimLeft_def)

lemma strings_Trim_split: "\<exists>n m. s = replicate n x @ strings_Trim s [x] @ replicate m x"
proof (cases "s = []")
  case True
  then have "s = replicate 0 x @ strings_Trim s [x] @ replicate 0 x" by (simp add: strings_Trim_def)
  then show ?thesis by blast
next
  case False
  obtain m where m: "s = trimRight s [x] @ replicate m x" using trimRight_split by blast
  obtain n where n: "trimRight s [x] = replicate n x @ trimLeft (trimRight s [x]) [x]"
    using trimLeft_split by blast
  from False have "strings_Trim s [x] = trimLeft (trimRight s [x]) [x]" by (simp add: strings_Trim_def)
  with m n have "s = replicate n x @ strings_Trim s [x] @ replicate m x" by (metis append.assoc)
  then show ?thesis by blast
qed

lemma trimRight_last: "trimRight s [x] \<noteq> [] \<Longrightarrow> last (trimRight s [x]) \<noteq> x"
proof -
  assume ne: "trimRight s [x] \<noteq> []"
  then have d: "dropWhile (\<lambda>ch. ch = x) (rev s) \<noteq> []" by (simp add: trimRight_def)
  have "last (trimRight s [x]) = hd (dropWhile (\<lambda>ch. ch = x) (rev s))"
    using d by (simp add: trimRight_def last_rev)
  with hd_dropWhile [OF d] show ?thesis by simp
qed

lemma trimLeft_hd: "trimLeft s [x] \<noteq> [] \<Longrightarrow> hd (trimLeft s [x]) \<noteq> x"
  using hd_dropWhile [of "\<lambda>ch. ch = x" s] by (simp add: trimLeft_def)

lemma trimLeft_last: "trimLeft s [x] \<noteq> [] \<Longrightarrow> last (trimLeft s [x]) = last s"
proof -
  assume ne: "trimLeft s [x] \<noteq> []"
  obtain n where "s = replicate n x @ trimLeft s [x]" using trimLeft_split by blast
  then have "last s = last (replicate n x @ trimLeft s [x])" by simp
  with ne show ?thesis by simp
qed

lemma strings_Trim_ends:
  "strings_Trim s [x] \<noteq> [] \<Longrightarrow> hd (strings_Trim s [x]) \<noteq> x \<and> last (strings_Trim s [x]) \<noteq> x"
proof -
  assume ne: "strings_Trim s [x] \<noteq> []"
  then have s: "s \<noteq> []" by (auto simp: strings_Trim_def)
  then have eq: "strings_Trim s [x] = trimLeft (trimRight s [x]) [x]" by (simp add: strings_Trim_def)
  with ne have ne2: "trimLeft (trimRight s [x]) [x] \<noteq> []" by simp
  then have ne3: "trimRight s [x] \<noteq> []" by (auto simp: trimLeft_def)
  from trimLeft_hd [OF ne2] trimLeft_last [OF ne2] trimRight_last [OF ne3] eq
  show ?thesis by simp
qed

lemma strings_Trim_unchanged: "x \<notin> set s \<Longrightarrow> strings_Trim s [x] = s"
proof (cases s rule: rev_cases)
  case Nil
  then show ?thesis by (simp add: strings_Trim_def)
next
  case (snoc ys y)
  assume "x \<notin> set s"
  with snoc show ?thesis
    by (cases ys) (auto simp: strings_Trim_def trimLeft_def trimRight_def)
qed

subsection \<open>What init sends and returns\<close>

lemma init_calls:
  "calls (snd (init eng fs c w)) = calls w @ [CInit (api c) None (charLangs c) (charConfig fs c)]"
  by (auto simp: init_def C_Init_def Let_def split: prod.splits)

lemma init_result:
  "fst (init eng fs c w) =
     (let res = fst (tess_Init eng (est w) (api c) None (charLangs c) (charConfig fs c))
      in if res = 0 then None else Some (InitFailed res))"
  by (auto simp: init_def C_Init_def Let_def split: prod.splits)

lemma init_est:
  "est (snd (init eng fs c w)) =
     snd (tess_Init eng (est w) (api c) None (charLangs c) (charConfig fs c))"
  by (auto simp: init_def C_Init_def Let_def split: prod.splits)

lemma charConfig_eq: "charConfig fs c = (if fs (ConfigFilePath c) = None then None else Some (ConfigFilePath c))"
  by (simp add: charConfig_def os_Stat_def split: option.splits)

subsection \<open>What prepare sends and returns\<close>

lemma bind_calls: "calls (snd (bind eng c k v w)) = calls w @ [CSetVariable (api c) k v]"
  by (auto simp: bind_def C_SetVariable_def split: prod.splits)

lemma bind_result: "fst (bind eng c k v w) = fst (tess_SetVariable eng (est w) (api c) k v)"
  by (auto simp: bind_def C_SetVariable_def split: prod.splits)

lemma bind_each_ok:
  "bind_each eng c kvs w = (None, w') \<Longrightarrow> calls w' = calls w @ map (bind_call c) kvs"
proof (induction kvs arbitrary: w)
  case Nil
  then show ?case by simp
next
  case (Cons kv kvs)
  obtain k v where kv: "kv = (k, v)" by (cases kv)
  obtain ok w1 where b: "bind eng c k v w = (ok, w1)" by (cases "bind eng c k v w")
  from Cons.prems kv b have ok: ok and rest: "bind_each eng c kvs w1 = (None, w')"
    by (auto split: if_splits)
  from bind_calls [of eng c k v w] b have "calls w1 = calls w @ [CSetVariable (api c) k v]"
    by simp
  with Cons.IH [OF rest] kv show ?case by (simp add: bind_call_def)
qed

lemma bind_each_failed:
  "bind_each eng c kvs w = (Some e, w') \<Longrightarrow>
     \<exists>done k v s. e = BindFailed k v \<and> (k, v) \<in> set kvs \<and> set done \<subseteq> set kvs
       \<and> calls w' = calls w @ map (bind_call c) done @ [CSetVariable (api c) k v]
       \<and> fst (tess_SetVariable eng s (api c) k v) = False"
proof (induction kvs arbitrary: w)
  case Nil
  then show ?case by simp
next
  case (Cons kv kvs)
  obtain k v where kv: "kv = (k, v)" by (cases kv)
  obtain ok w1 where b: "bind eng c k v w = (ok, w1)" by (cases "bind eng c k v w")
  from bind_calls [of eng c k v w] b have c1: "calls w1 = calls w @ [CSetVariable (api c) k v]"
    by simp
  show ?case
  proof (cases ok)
    case False
    with Cons.prems kv b have "e = BindFailed k v" and "w' = w1" by auto
    moreover from False b bind_result [of eng c k v w]
    have "fst (tess_SetVariable eng (est w) (api c) k v) = False" by simp
    ultimately have "e = BindFailed k v \<and> (k, v) \<in> set (kv # kvs) \<and> set [] \<subseteq> set (kv # kvs)
       \<and> calls w' = calls w @ map (bind_call c) [] @ [CSetVariable (api c) k v]
       \<and> fst (tess_SetVariable eng (est w) (api c) k v) = False"
      using c1 kv by simp
    then show ?thesis by blast
  next
    case True
    with Cons.prems kv b have "bind_each eng c kvs w1 = (Some e, w')" by simp
    from Cons.IH [OF this] obtain dn k' v' s where
      h: "e = BindFailed k' v'" "(k', v') \<in> set kvs" "set dn \<subseteq> set kvs"
         "calls w' = calls w1 @ map (bind_call c) dn @ [CSetVariable (api c) k' v']"
         "fst (tess_SetVariable eng s (api c) k' v') = False" by blast
    with c1 kv have "e = BindFailed k' v' \<and> (k', v') \<in> set (kv # kvs) \<and> set (kv # dn) \<subseteq> set (kv # kvs)
       \<and> calls w' = calls w @ map (bind_call c) (kv # dn) @ [CSetVariable (api c) k' v']
       \<and> fst (tess_SetVariable eng s (api c) k' v') = False"
      by (auto simp: bind_call_def)
    then show ?thesis by blast
  qed
qed

lemma range_map_binding:
  "(k, v) \<in> set (range_map vars order) \<Longrightarrow> \<exists>m. vars = Some m \<and> m k = Some v \<and> k \<in> set order"
  by (auto simp: range_map_def List.map_filter_def split: option.splits)

lemma C_SetImage_calls: "calls (C_SetImage eng a p w) = calls w @ [CSetImage a p]"
  by (simp add: C_SetImage_def)

lemma C_SetPageSegMode_calls: "calls (C_SetPageSegMode eng a m w) = calls w @ [CSetPageSegMode a m]"
  by (simp add: C_SetPageSegMode_def)

lemma prepare_ok:
  assumes "prepare eng order c w = (None, w')"
  shows "calls w' = calls w @ CSetImage (api c) (ImagePath c)
           # map (bind_call c) (range_map (Variables c) order)
           @ (case PageSegMode c of None \<Rightarrow> [] | Some m \<Rightarrow> [CSetPageSegMode (api c) (ucast m)])"
proof -
  define w1 where "w1 = C_SetImage eng (api c) (ImagePath c) w"
  obtain r w2 where b: "bind_each eng c (range_map (Variables c) order) w1 = (r, w2)"
    by (cases "bind_each eng c (range_map (Variables c) order) w1")
  from assms b have r: "r = None"
    by (cases r) (simp_all add: prepare_def w1_def Let_def)
  from bind_each_ok [of eng c _ w1 w2] b r
  have c2: "calls w2 = calls w1 @ map (bind_call c) (range_map (Variables c) order)" by simp
  have c1: "calls w1 = calls w @ [CSetImage (api c) (ImagePath c)]"
    by (simp add: w1_def C_SetImage_calls)
  show ?thesis
  proof (cases "PageSegMode c")
    case None
    with assms b r have "w' = w2" by (simp add: prepare_def w1_def Let_def)
    with c1 c2 None show ?thesis by simp
  next
    case (Some m)
    with assms b r have "w' = C_SetPageSegMode eng (api c) (ucast m) w2"
      by (simp add: prepare_def w1_def Let_def)
    with c1 c2 Some show ?thesis by (simp add: C_SetPageSegMode_calls)
  qed
qed

lemma prepare_failed:
  assumes "prepare eng order c w = (Some e, w')"
  shows "\<exists>done k v m s. e = BindFailed k v \<and> Variables c = Some m \<and> m k = Some v
           \<and> calls w' = calls w @ CSetImage (api c) (ImagePath c) # map (bind_call c) done
                @ [CSetVariable (api c) k v]
           \<and> fst (tess_SetVariable eng s (api c) k v) = False"
proof -
  define w1 where "w1 = C_SetImage eng (api c) (ImagePath c) w"
  obtain r w2 where b: "bind_each eng c (range_map (Variables c) order) w1 = (r, w2)"
    by (cases "bind_each eng c (range_map (Variables c) order) w1")
  from assms b have r: "r = Some e" and w': "w' = w2"
    by (cases r; simp add: prepare_def w1_def Let_def split: option.splits)+
  from bind_each_failed [of eng c _ w1 e w2] b r obtain dn k v s where
    h: "e = BindFailed k v" "(k, v) \<in> set (range_map (Variables c) order)"
       "calls w2 = calls w1 @ map (bind_call c) dn @ [CSetVariable (api c) k v]"
       "fst (tess_SetVariable eng s (api c) k v) = False" by blast
  from range_map_binding [OF h(2)] obtain m where m: "Variables c = Some m" "m k = Some v" by blast
  have c1: "calls w1 = calls w @ [CSetImage (api c) (ImagePath c)]"
    by (simp add: w1_def C_SetImage_calls)
  from h m c1 w' have "e = BindFailed k v \<and> Variables c = Some m \<and> m k = Some v
           \<and> calls w' = calls w @ CSetImage (api c) (ImagePath c) # map (bind_call c) dn
                @ [CSetVariable (api c) k v]
           \<and> fst (tess_SetVariable eng s (api c) k v) = False" by simp
  then show ?thesis by blast
qed

lemma bind_each_append:
  "bind_each eng c done w = (None, wd) \<Longrightarrow>
     bind_each eng c (done @ rest) w = bind_each eng c rest wd"
proof (induction "done" arbitrary: w)
  case Nil
  then show ?case by simp
next
  case (Cons kv dn)
  obtain k v where kv: "kv = (k, v)" by (cases kv)
  obtain ok w1 where b: "bind eng c k v w = (ok, w1)" by (cases "bind eng c k v w")
  from Cons.prems kv b have ok: ok and r: "bind_each eng c dn w1 = (None, wd)"
    by (auto split: if_splits)
  from Cons.IH [OF r] kv b ok show ?case by simp
qed

lemma bind_each_first_refusal:
  assumes "bind_each eng c done w = (None, wd)"
    and "fst (tess_SetVariable eng (est wd) (api c) k v) = False"
  shows "bind_each eng c (done @ (k, v) # rest) w =
           (Some (BindFailed k v), snd (bind eng c k v wd))"
proof -
  obtain ok w1 where b: "bind eng c k v wd = (ok, w1)" by (cases "bind eng c k v wd")
  with bind_result [of eng c k v wd] assms(2) have "\<not> ok" by simp
  with b have "bind_each eng c ((k, v) # rest) wd = (Some (BindFailed k v), snd (bind eng c k v wd))"
    by simp
  with bind_each_append [OF assms(1), of "(k, v) # rest"] show ?thesis by simp
qed


lemma bind_each_refused_everywhere:
  assumes "(k, v) \<in> set kvs" and "\<forall>s. fst (tess_SetVariable eng s (api c) k v) = False"
  shows "\<exists>k' v'. fst (bind_each eng c kvs w) = Some (BindFailed k' v')"
  using assms(1)
proof (induction kvs arbitrary: w)
  case Nil
  then show ?case by simp
next
  case (Cons kv kvs)
  obtain k1 v1 where kv: "kv = (k1, v1)" by (cases kv)
  obtain ok w1 where b: "bind eng c k1 v1 w = (ok, w1)" by (cases "bind eng c k1 v1 w")
  show ?case
  proof (cases ok)
    case False
    with kv b show ?thesis by simp
  next
    case True
    with b bind_result [of eng c k1 v1 w] assms(2) have "(k1, v1) \<noteq> (k, v)" by auto
    with Cons.prems kv have "(k, v) \<in> set kvs" by auto
    from Cons.IH [OF this, of w1] kv b True show ?thesis by simp
  qed
qed

lemma prepare_first_refusal:
  assumes "range_map (Variables c) order = done @ (k, v) # rest"
    and "bind_each eng c done (C_SetImage eng (api c) (ImagePath c) w) = (None, wd)"
    and "fst (tess_SetVariable eng (est wd) (api c) k v) = False"
  shows "prepare eng order c w = (Some (BindFailed k v), snd (bind eng c k v wd))"
    and "calls (snd (bind eng c k v wd)) =
           calls w @ CSetImage (api c) (ImagePath c) # map (bind_call c) done
             @ [CSetVariable (api c) k v]"
proof -
  from bind_each_first_refusal [OF assms(2,3), of rest] assms(1)
  show "prepare eng order c w = (Some (BindFailed k v), snd (bind eng c k v wd))"
    by (simp add: prepare_def Let_def)
  from bind_each_ok [OF assms(2)] bind_calls [of eng c k v wd]
  show "calls (snd (bind eng c k v wd)) =
           calls w @ CSetImage (api c) (ImagePath c) # map (bind_call c) done
             @ [CSetVariable (api c) k v]"
    by (simp add: C_SetImage_calls)
qed


lemma prepare_refused_everywhere:
  assumes "(k, v) \<in> set (range_map (Variables c) order)"
    and "\<forall>s. fst (tess_SetVariable eng s (api c) k v) = False"
  shows "\<exists>k' v'. fst (prepare eng order c w) = Some (BindFailed k' v')"
proof -
  from bind_each_refused_everywhere [OF assms, of "C_SetImage eng (api c) (ImagePath c) w"]
  obtain k' v' where
    "fst (bind_each eng c (range_map (Variables c) order) (C_SetImage eng (api c) (ImagePath c) w))
       = Some (BindFailed k' v')" by blast
  then have "fst (prepare eng order c w) = Some (BindFailed k' v')"
    by (cases "bind_each eng c (range_map (Variables c) order)
          (C_SetImage eng (api c) (ImagePath c) w)") (simp add: prepare_def Let_def)
  then show ?thesis by blast
qed

subsection \<open>The log is only appended to\<close>

lemma rebase_est [simp]: "est (rebase cs w) = est w"
  by (simp add: rebase_def)

lemma rebase_calls [simp]: "calls (rebase cs w) = cs @ calls w"
  by (simp add: rebase_def)

lemma fresh_est [simp]: "est (fresh s) = s"
  by (simp add: fresh_def)

lemma fresh_calls [simp]: "calls (fresh s) = []"
  by (simp add: fresh_def)


lemma init_rebase:
  "init eng fs c (rebase cs w) = (let (r, w1) = init eng fs c w in (r, rebase cs w1))"
  by (auto simp: init_def C_Init_def rebase_def Let_def split: prod.splits)

lemma bind_rebase:
  "bind eng c k v (rebase cs w) = (let (ok, w1) = bind eng c k v w in (ok, rebase cs w1))"
  by (simp add: bind_def C_SetVariable_def rebase_def split: prod.splits)

lemma bind_each_rebase:
  "bind_each eng c kvs (rebase cs w) = (let (r, w1) = bind_each eng c kvs w in (r, rebase cs w1))"
proof (induction kvs arbitrary: w)
  case Nil
  then show ?case by simp
next
  case (Cons kv kvs)
  obtain k v where kv: "kv = (k, v)" by (cases kv)
  obtain ok w1 where b: "bind eng c k v w = (ok, w1)" by (cases "bind eng c k v w")
  with kv Cons.IH [of w1] show ?case
    by (simp add: bind_rebase)
qed

lemma C_SetImage_rebase:
  "C_SetImage eng a p (rebase cs w) = rebase cs (C_SetImage eng a p w)"
  by (simp add: C_SetImage_def rebase_def)

lemma C_SetPageSegMode_rebase:
  "C_SetPageSegMode eng a m (rebase cs w) = rebase cs (C_SetPageSegMode eng a m w)"
  by (simp add: C_SetPageSegMode_def rebase_def)

lemma prepare_rebase:
  "prepare eng order c (rebase cs w) = (let (r, w1) = prepare eng order c w in (r, rebase cs w1))"
  by (simp add: prepare_def C_SetImage_rebase bind_each_rebase C_SetPageSegMode_rebase Let_def
      split: prod.splits option.splits)


lemma C_HOCRText_rebase:
  "C_HOCRText eng a (rebase cs w) = (let (r, w1) = C_HOCRText eng a w in (r, rebase cs w1))"
  by (simp add: C_HOCRText_def rebase_def split: prod.splits)


lemma HTML_rebase:
  "HTML eng fs order c (rebase cs w) =
     (let (out, err, w1) = HTML eng fs order c w in (out, err, rebase cs w1))"
  by (simp add: HTML_def init_rebase prepare_rebase C_HOCRText_rebase Let_def
      split: prod.splits option.splits)

subsection \<open>The concrete clients and worlds\<close>

lemma client0_fields:
  "api client0 = 1" "Trim client0 = True" "Languages client0 = []" "ImagePath client0 = []"
  "Variables client0 = Some Map.empty" "PageSegMode client0 = None" "ConfigFilePath client0 = []"
  "TessdataPrefix client0 = None"
  by (simp_all add: client0_def NewClient_def C_Create_def digits_engine_def demo_engine_def
      world0_def fresh_def)

lemma world1_eq: "world1 = \<lparr>est = False, calls = [CCreate 1]\<rparr>"
  by (simp add: world1_def NewClient_def C_Create_def digits_engine_def demo_engine_def
      world0_def fresh_def)


lemma client_cfg_eq: "client_cfg = client0\<lparr>ConfigFilePath := ''cfg''\<rparr>"
  by (simp add: client_cfg_def SetConfigFile_def os_Stat_def fs_file_def)

lemma newline_eq: "newline = [CHR 0x0A]"
  by (simp add: newline_def)

lemma client_xxx_eq: "client_xxx = client0\<lparr>Languages := [''xxx'']\<rparr>"
  by (simp add: client_xxx_def SetLanguage_def)

lemma client_foo_eq: "client_foo = client0\<lparr>Variables := Some [''foo'' \<mapsto> ''1'']\<rparr>"
  by (simp add: client_foo_def SetVariable_def client0_fields)

subsection \<open>Text when both phases succeed\<close>

lemma Text_success:
  assumes "init eng fs c w = (None, w1)" and "prepare eng order c w1 = (None, w2)"
  shows "Text eng fs order c w =
           (let raw = fst (tess_UTF8Text eng (est w2) (api c))
            in if Trim c then strings_Trim raw newline else raw,
            None,
            snd (C_UTF8Text eng (api c) w2))"
  using assms by (simp add: Text_def C_UTF8Text_def Let_def split: prod.splits)

subsection \<open>Text and HTML when a phase fails, and the calls they make\<close>

lemma extraction_call_simps [simp]:
  "extraction_call (CInit a d l cf) = False"
  "extraction_call (CSetImage a p) = False"
  "extraction_call (CSetVariable a k v) = False"
  "extraction_call (CSetPageSegMode a m) = False"
  "extraction_call (CUTF8Text a) = True"
  "extraction_call (CHOCRText a) = True"
  by (simp_all add: extraction_call_def)

lemma filter_extraction_bind_calls: "filter extraction_call (map (bind_call c) kvs) = []"
  by (induction kvs) (simp_all add: bind_call_def)

lemma Text_init_failed:
  "init eng fs c w = (Some e, w1) \<Longrightarrow> Text eng fs order c w = ([], Some e, w1)"
  by (simp add: Text_def)

lemma HTML_init_failed:
  "init eng fs c w = (Some e, w1) \<Longrightarrow> HTML eng fs order c w = ([], Some e, w1)"
  by (simp add: HTML_def)

lemma Text_prepare_failed:
  "init eng fs c w = (None, w1) \<Longrightarrow> prepare eng order c w1 = (Some e, w2) \<Longrightarrow>
     Text eng fs order c w = ([], Some e, w2)"
  by (simp add: Text_def)

lemma HTML_prepare_failed:
  "init eng fs c w = (None, w1) \<Longrightarrow> prepare eng order c w1 = (Some e, w2) \<Longrightarrow>
     HTML eng fs order c w = ([], Some e, w2)"
  by (simp add: HTML_def)

lemma HTML_success:
  assumes "init eng fs c w = (None, w1)" and "prepare eng order c w1 = (None, w2)"
  shows "HTML eng fs order c w =
           (fst (tess_HOCRText eng (est w2) (api c)), None, snd (C_HOCRText eng (api c) w2))"
  using assms by (simp add: HTML_def C_HOCRText_def Let_def split: prod.splits)

lemma C_UTF8Text_calls: "calls (snd (C_UTF8Text eng a w)) = calls w @ [CUTF8Text a]"
  by (simp add: C_UTF8Text_def split: prod.splits)

lemma C_HOCRText_calls: "calls (snd (C_HOCRText eng a w)) = calls w @ [CHOCRText a]"
  by (simp add: C_HOCRText_def split: prod.splits)

lemma init_calls_eq:
  "init eng fs c w = (r, w1) \<Longrightarrow>
     calls w1 = calls w @ [CInit (api c) None (charLangs c) (charConfig fs c)]"
  using init_calls [of eng fs c w] by simp

subsection \<open>Close, and what Text and HTML do in any world\<close>




subsection \<open>The calls of one run of Text and of HTML\<close>

lemma commit_calls_None:
  "commit_calls c fs order query None new =
     (new = CInit (api c) None (charLangs c) (charConfig fs c)
            # CSetImage (api c) (ImagePath c)
            # map (bind_call c) (range_map (Variables c) order)
            @ (case PageSegMode c of None \<Rightarrow> [] | Some m \<Rightarrow> [CSetPageSegMode (api c) (ucast m)])
            @ [query])"
  by (simp add: commit_calls_def)



lemma commit_calls_error:
  "commit_calls c fs order query (Some e) new \<Longrightarrow>
     (\<exists>res. e = InitFailed res \<and> res \<noteq> 0) \<or> (\<exists>k v. e = BindFailed k v)"
  by (cases e) (simp_all add: commit_calls_def)

lemma commit_calls_start:
  "commit_calls c fs order query err new \<Longrightarrow>
     \<exists>rest. new = CInit (api c) None (charLangs c) (charConfig fs c) # rest"
proof (cases err)
  case None
  assume "commit_calls c fs order query err new"
  with None show ?thesis by (simp add: commit_calls_None)
next
  case (Some e)
  assume "commit_calls c fs order query err new"
  with Some show ?thesis by (cases e) (auto simp: commit_calls_def)
qed



subsection \<open>Text from an engine whose Init starts from scratch\<close>




section \<open>Close\<close>

text \<open>
  C10. Close returns a nil error for every Client, every engine and every world: no
  caller sees a release failure in its result.
\<close>

theorem Close_returns_nil: "fst (Close eng c w) = None"
  by (simp add: Close_def)

section \<open>The setters\<close>

text \<open>
  C4. SetConfigFile returns an error of the kind the specification calls ConfigFileError
  both when \<^verbatim>\<open>os.Stat\<close> fails on the path (it does not exist) and when the path is a
  directory, and in both cases the Client, with its stored path, is as it was; when the
  path is a file that is not a directory, no error is returned and the path is stored.
\<close>

theorem SetConfigFile_error_or_stored:
  "((fs fpath = None \<or> (\<exists>info. fs fpath = Some info \<and> IsDir info)) \<longrightarrow>
      (\<exists>e. fst (SetConfigFile fs fpath c) = Some e \<and> ConfigFileError e)
      \<and> snd (SetConfigFile fs fpath c) = c)
   \<and> ((\<exists>info. fs fpath = Some info \<and> \<not> IsDir info) \<longrightarrow>
      SetConfigFile fs fpath c = (None, c\<lparr>ConfigFilePath := fpath\<rparr>))"
  by (auto simp: SetConfigFile_def os_Stat_def ConfigFileError_def split: option.splits)

theorem SetConfigFile_error_or_stored_witness:
  "((\<exists>e. fst (SetConfigFile fs_none ''cfg'' client0) = Some e \<and> ConfigFileError e)
      \<and> snd (SetConfigFile fs_none ''cfg'' client0) = client0)
   \<and> ((\<exists>e. fst (SetConfigFile fs_dir ''cfg'' client_cfg) = Some e \<and> ConfigFileError e)
      \<and> snd (SetConfigFile fs_dir ''cfg'' client_cfg) = client_cfg)
   \<and> SetConfigFile fs_file ''cfg'' client0 = (None, client0\<lparr>ConfigFilePath := ''cfg''\<rparr>)"
proof -
  have a: "fs_none ''cfg'' = None" by (simp add: fs_none_def)
  have b: "\<exists>info. fs_dir ''cfg'' = Some info \<and> IsDir info" by (simp add: fs_dir_def)
  have c: "\<exists>info. fs_file ''cfg'' = Some info \<and> \<not> IsDir info" by (simp add: fs_file_def)
  from a SetConfigFile_error_or_stored [of fs_none "''cfg''" client0]
  have 1: "(\<exists>e. fst (SetConfigFile fs_none ''cfg'' client0) = Some e \<and> ConfigFileError e)
      \<and> snd (SetConfigFile fs_none ''cfg'' client0) = client0" by blast
  from b SetConfigFile_error_or_stored [of fs_dir "''cfg''" client_cfg]
  have 2: "(\<exists>e. fst (SetConfigFile fs_dir ''cfg'' client_cfg) = Some e \<and> ConfigFileError e)
      \<and> snd (SetConfigFile fs_dir ''cfg'' client_cfg) = client_cfg" by blast
  from c SetConfigFile_error_or_stored [of fs_file "''cfg''" client0]
  have 3: "SetConfigFile fs_file ''cfg'' client0 = (None, client0\<lparr>ConfigFilePath := ''cfg''\<rparr>)"
    by blast
  from 1 2 3 show ?thesis by blast
qed

text \<open>
  C7. On a Client whose map is not nil (every Client made by NewClient), SetVariable of a
  key with one value and then with another leaves the map with one binding for the key,
  to the second value; every other key is bound as before, and no other field changes.
\<close>

theorem SetVariable_last_write_wins:
  assumes "Variables c = Some m"
  shows "\<exists>c1 c2 m2. SetVariable k v1 c = Inr c1 \<and> SetVariable k v2 c1 = Inr c2
           \<and> c2 = c\<lparr>Variables := Some m2\<rparr>
           \<and> {v. m2 k = Some v} = {v2}
           \<and> (\<forall>k'. k' \<noteq> k \<longrightarrow> m2 k' = m k')
           \<and> dom m2 = insert k (dom m)"
proof -
  let ?c1 = "c\<lparr>Variables := Some (m(k \<mapsto> v1))\<rparr>"
  let ?m2 = "m(k \<mapsto> v2)"
  from assms have 1: "SetVariable k v1 c = Inr ?c1" by (simp add: SetVariable_def)
  have 2: "SetVariable k v2 ?c1 = Inr (c\<lparr>Variables := Some ?m2\<rparr>)" by (simp add: SetVariable_def)
  have 3: "{v. ?m2 k = Some v} = {v2}" by auto
  have 4: "\<forall>k'. k' \<noteq> k \<longrightarrow> ?m2 k' = m k'" by simp
  have 5: "dom ?m2 = insert k (dom m)" by simp
  from 1 2 3 4 5 show ?thesis by blast
qed

theorem SetVariable_last_write_wins_witness:
  "\<exists>c1 c2 m2. SetVariable ''k'' ''v1'' client0 = Inr c1 \<and> SetVariable ''k'' ''v2'' c1 = Inr c2
           \<and> c2 = client0\<lparr>Variables := Some m2\<rparr>
           \<and> {v. m2 ''k'' = Some v} = {''v2''}
           \<and> (\<forall>k'. k' \<noteq> ''k'' \<longrightarrow> m2 k' = None)
           \<and> dom m2 = insert ''k'' (dom (Map.empty :: string \<rightharpoonup> string))"
proof -
  have h: "Variables client0 = Some Map.empty"
    by (simp add: client0_def NewClient_def C_Create_def digits_engine_def demo_engine_def
        world0_def fresh_def)
  from SetVariable_last_write_wins [OF h, of "''k''" "''v1''" "''v2''"] show ?thesis .
qed

section \<open>init\<close>

text \<open>
  C3. For every language list, the language identifier in the Init call that init makes
  is the list joined in order with one "+" between neighbours (["eng","fra"] gives
  "eng+fra"), and it is absent (a nil pointer) when the list is empty. When no language
  contains "+", cutting the identifier at every "+" gives the list back.
\<close>

theorem init_language_identifier:
  "calls (snd (init eng fs c w)) =
     calls w @ [CInit (api c) None
                  (if Languages c = [] then None else Some (join_with ''+'' (Languages c)))
                  (charConfig fs c)]
   \<and> (Languages c = [''eng'', ''fra''] \<longrightarrow> charLangs c = Some ''eng+fra'')
   \<and> (Languages c = [] \<longrightarrow> charLangs c = None)
   \<and> (Languages c \<noteq> [] \<and> (\<forall>l \<in> set (Languages c). CHR ''+'' \<notin> set l) \<longrightarrow>
        map_option (split_on CHR ''+'') (charLangs c) = Some (Languages c))"
proof -
  have l: "charLangs c = (if Languages c = [] then None else Some (join_with ''+'' (Languages c)))"
    by (simp add: charLangs_def strings_Join_join_with)
  have 1: "calls (snd (init eng fs c w)) =
     calls w @ [CInit (api c) None
                  (if Languages c = [] then None else Some (join_with ''+'' (Languages c)))
                  (charConfig fs c)]"
    by (simp only: init_calls l)
  have 2: "Languages c = [''eng'', ''fra''] \<longrightarrow> charLangs c = Some ''eng+fra''"
    by (simp add: l)
  have 3: "Languages c = [] \<longrightarrow> charLangs c = None"
    by (simp add: l)
  have 4: "Languages c \<noteq> [] \<and> (\<forall>l \<in> set (Languages c). CHR ''+'' \<notin> set l) \<longrightarrow>
        map_option (split_on CHR ''+'') (charLangs c) = Some (Languages c)"
    using split_on_join_with [of "Languages c" "CHR ''+''"] by (simp add: l)
  from 1 2 3 4 show ?thesis by blast
qed

theorem init_language_identifier_witness:
  "calls (snd (init digits_engine fs_none (SetLanguage [''eng'', ''fra''] client0) world1)) =
     [CCreate 1, CInit 1 None (Some ''eng+fra'') None]
   \<and> calls (snd (init digits_engine fs_none (SetLanguage [] client0) world1)) =
     [CCreate 1, CInit 1 None None None]"
proof -
  have a: "api client0 = 1" "calls world1 = [CCreate 1]"
    by (simp_all add: client0_def world1_def NewClient_def C_Create_def digits_engine_def
        demo_engine_def world0_def fresh_def)
  have b: "Languages (SetLanguage [''eng'', ''fra''] client0) = [''eng'', ''fra'']"
    "Languages (SetLanguage [] client0) = []"
    "api (SetLanguage [''eng'', ''fra''] client0) = 1"
    "api (SetLanguage [] client0) = 1"
    using a by (simp_all add: SetLanguage_def)
  have c: "charConfig fs_none (SetLanguage [''eng'', ''fra''] client0) = None"
    "charConfig fs_none (SetLanguage [] client0) = None"
    by (simp_all add: charConfig_eq fs_none_def)
  from init_language_identifier [of digits_engine fs_none "SetLanguage [''eng'', ''fra''] client0" world1]
    init_language_identifier [of digits_engine fs_none "SetLanguage [] client0" world1]
  show ?thesis by (simp add: a b c)
qed

text \<open>
  C5. For every stored path, init asks \<^verbatim>\<open>os.Stat\<close> again when it runs and passes the path
  to the engine exactly when the call succeeds at that moment. When it fails (the path no
  longer exists), init passes no parameter file and goes on: its result is decided by the
  engine's result code alone, nil when the code is 0 and the initialisation error with
  the code otherwise, so no error comes from the missing file.
\<close>

theorem init_rechecks_config_file:
  "calls (snd (init eng fs c w)) =
     calls w @ [CInit (api c) None (charLangs c)
                  (if fs (ConfigFilePath c) = None then None else Some (ConfigFilePath c))]
   \<and> fst (init eng fs c w) =
       (let res = fst (tess_Init eng (est w) (api c) None (charLangs c)
                     (if fs (ConfigFilePath c) = None then None else Some (ConfigFilePath c)))
        in if res = 0 then None else Some (InitFailed res))
   \<and> (fs (ConfigFilePath c) = None \<longrightarrow>
        calls (snd (init eng fs c w)) = calls w @ [CInit (api c) None (charLangs c) None]
        \<and> fst (init eng fs c w) =
            (let res = fst (tess_Init eng (est w) (api c) None (charLangs c) None)
             in if res = 0 then None else Some (InitFailed res))
        \<and> est (snd (init eng fs c w)) =
            snd (tess_Init eng (est w) (api c) None (charLangs c) None))
   \<and> (\<forall>info. fs (ConfigFilePath c) = Some info \<longrightarrow>
        calls (snd (init eng fs c w)) =
          calls w @ [CInit (api c) None (charLangs c) (Some (ConfigFilePath c))]
        \<and> est (snd (init eng fs c w)) =
            snd (tess_Init eng (est w) (api c) None (charLangs c) (Some (ConfigFilePath c))))"
  using init_calls [of eng fs c w] init_result [of eng fs c w] init_est [of eng fs c w]
  by (simp add: charConfig_eq)

theorem init_rechecks_config_file_witness:
  "calls (snd (init digits_engine fs_none client_cfg world1)) = [CCreate 1, CInit 1 None None None]
   \<and> fst (init digits_engine fs_none client_cfg world1) = None
   \<and> calls (snd (init digits_engine fs_file client_cfg world1)) =
       [CCreate 1, CInit 1 None None (Some ''cfg'')]
   \<and> calls (snd (init digits_engine fs_dir client_cfg world1)) =
       [CCreate 1, CInit 1 None None (Some ''cfg'')]"
proof -
  have p: "ConfigFilePath client_cfg = ''cfg''" "api client_cfg = 1" "charLangs client_cfg = None"
    by (simp_all add: client_cfg_eq client0_fields charLangs_def)
  have f: "fs_none ''cfg'' = None" "fs_file ''cfg'' = Some \<lparr>IsDir = False\<rparr>"
    "fs_dir ''cfg'' = Some \<lparr>IsDir = True\<rparr>"
    by (simp_all add: fs_none_def fs_file_def fs_dir_def)
  have w: "calls world1 = [CCreate 1]" "est world1 = False" by (simp_all add: world1_eq)
  from init_rechecks_config_file [of digits_engine fs_none client_cfg world1]
  have 1: "calls (snd (init digits_engine fs_none client_cfg world1)) = [CCreate 1, CInit 1 None None None]
   \<and> fst (init digits_engine fs_none client_cfg world1) = None"
    by (simp add: p f w digits_engine_def demo_engine_def)
  from init_rechecks_config_file [of digits_engine fs_file client_cfg world1]
  have 2: "calls (snd (init digits_engine fs_file client_cfg world1)) =
       [CCreate 1, CInit 1 None None (Some ''cfg'')]"
    by (simp add: p f w)
  from init_rechecks_config_file [of digits_engine fs_dir client_cfg world1]
  have 3: "calls (snd (init digits_engine fs_dir client_cfg world1)) =
       [CCreate 1, CInit 1 None None (Some ''cfg'')]"
    by (simp add: p f w)
  from 1 2 3 show ?thesis by blast
qed

section \<open>Text and HTML\<close>

text \<open>
  C6. With Trim set and both phases succeeding, Text returns the engine's raw output
  without its leading and trailing newline characters and changes nothing else: the raw
  output is the result between two runs of newlines, a non-empty result neither starts
  nor ends with a newline, and raw output without a newline is returned as it is. A
  newline, "Hello World", a newline gives "Hello World"; a space, "Hello World", a space
  is unchanged.
\<close>

theorem Text_trims_newlines_only:
  assumes "Trim c" and "init eng fs c w = (None, w1)" and "prepare eng order c w1 = (None, w2)"
    and "fst (tess_UTF8Text eng (est w2) (api c)) = raw"
  shows "fst (snd (Text eng fs order c w)) = None
     \<and> fst (Text eng fs order c w) = strings_Trim raw newline
     \<and> (\<exists>n m. raw = replicate n (CHR 0x0A) @ fst (Text eng fs order c w) @ replicate m (CHR 0x0A))
     \<and> (fst (Text eng fs order c w) \<noteq> [] \<longrightarrow>
          hd (fst (Text eng fs order c w)) \<noteq> CHR 0x0A \<and> last (fst (Text eng fs order c w)) \<noteq> CHR 0x0A)
     \<and> (CHR 0x0A \<notin> set raw \<longrightarrow> fst (Text eng fs order c w) = raw)
     \<and> (raw = ''\<newline>Hello World\<newline>'' \<longrightarrow> fst (Text eng fs order c w) = ''Hello World'')
     \<and> (raw = '' Hello World '' \<longrightarrow> fst (Text eng fs order c w) = '' Hello World '')"
proof -
  from Text_success [OF assms(2,3)] assms(1,4)
  have out: "fst (Text eng fs order c w) = strings_Trim raw [CHR 0x0A]"
    and err: "fst (snd (Text eng fs order c w)) = None"
    by (simp_all add: newline_eq)
  have 3: "\<exists>n m. raw = replicate n (CHR 0x0A) @ strings_Trim raw [CHR 0x0A] @ replicate m (CHR 0x0A)"
    by (rule strings_Trim_split)
  have 4: "strings_Trim raw [CHR 0x0A] \<noteq> [] \<longrightarrow>
          hd (strings_Trim raw [CHR 0x0A]) \<noteq> CHR 0x0A \<and> last (strings_Trim raw [CHR 0x0A]) \<noteq> CHR 0x0A"
    using strings_Trim_ends [of raw "CHR 0x0A"] by blast
  have 5: "CHR 0x0A \<notin> set raw \<longrightarrow> strings_Trim raw [CHR 0x0A] = raw"
    using strings_Trim_unchanged [of "CHR 0x0A" raw] by blast
  have 6: "raw = ''\<newline>Hello World\<newline>'' \<longrightarrow> strings_Trim raw [CHR 0x0A] = ''Hello World''"
    by (simp add: strings_Trim_def trimLeft_def trimRight_def)
  have 7: "raw = '' Hello World '' \<longrightarrow> strings_Trim raw [CHR 0x0A] = '' Hello World ''"
    by (simp add: strings_Trim_def trimLeft_def trimRight_def)
  from err out 3 4 5 6 7 show ?thesis by (simp only: newline_eq) 
qed

theorem Text_trims_newlines_only_witness:
  "fst (Text hello_engine fs_file [] client_cfg world1) = ''Hello World''
   \<and> fst (Text hello_engine fs_none [] client_cfg world1) = '' Hello World ''"
proof -
  let ?wa = "\<lambda>b cf. \<lparr>est = b, calls = [CCreate 1, CInit 1 None None cf]\<rparr>"
  let ?wb = "\<lambda>b cf. \<lparr>est = b, calls = [CCreate 1, CInit 1 None None cf, CSetImage 1 []]\<rparr>"
  have t: "Trim client_cfg" by (simp add: client_cfg_eq client0_fields)
  have i1: "init hello_engine fs_file client_cfg world1 = (None, ?wa True (Some ''cfg''))"
    by (simp add: init_def C_Init_def charLangs_def client_cfg_eq client0_fields world1_eq
        hello_engine_def demo_engine_def charConfig_eq fs_file_def)
  have i2: "init hello_engine fs_none client_cfg world1 = (None, ?wa False None)"
    by (simp add: init_def C_Init_def charLangs_def client_cfg_eq client0_fields world1_eq
        hello_engine_def demo_engine_def charConfig_eq fs_none_def)
  have p: "prepare hello_engine [] client_cfg (?wa b cf) = (None, ?wb b cf)" for b cf
    by (simp add: prepare_def C_SetImage_def range_map_def List.map_filter_def client_cfg_eq
        client0_fields hello_engine_def demo_engine_def)
  have r1: "fst (tess_UTF8Text hello_engine (est (?wb True (Some ''cfg''))) (api client_cfg))
      = ''\<newline>Hello World\<newline>''"
    by (simp add: hello_engine_def demo_engine_def)
  have r2: "fst (tess_UTF8Text hello_engine (est (?wb False None)) (api client_cfg))
      = '' Hello World ''"
    by (simp add: hello_engine_def demo_engine_def)
  from Text_trims_newlines_only [OF t i1 p r1]
  have 1: "fst (Text hello_engine fs_file [] client_cfg world1) = ''Hello World''" by blast
  from Text_trims_newlines_only [OF t i2 p r2]
  have 2: "fst (Text hello_engine fs_none [] client_cfg world1) = '' Hello World ''" by blast
  from 1 2 show ?thesis by blast
qed

text \<open>
  C8. Text and HTML call init first and prepare second. When init returns an error, both
  return that error with an empty string, having made the Init call only. When init
  succeeds and prepare returns an error, both return that error with an empty string; the
  error names a key and a value that the map binds and that the engine refused, and the
  SetVariable call for them is the last call made. A refusal always ends the run: when the
  bindings before a pair in the order of the loop are accepted and the pair is refused,
  both return the error of that pair and bind nothing after it, and when the map has a
  pair that the engine refuses in every state, both return the error of a refused pair.
  In no such case is a call that queries the text or the markup added to the log. When both
  phases succeed, the query is made after the calls of init and prepare, in that order.
\<close>

theorem Text_HTML_return_first_error:
  "(init eng fs c w = (Some e, w1) \<longrightarrow>
      Text eng fs order c w = ([], Some e, w1) \<and> HTML eng fs order c w = ([], Some e, w1)
      \<and> calls w1 = calls w @ [CInit (api c) None (charLangs c) (charConfig fs c)]
      \<and> filter extraction_call (calls w1) = filter extraction_call (calls w))
   \<and> (init eng fs c w = (None, w1) \<and> prepare eng order c w1 = (Some e, w2) \<longrightarrow>
      Text eng fs order c w = ([], Some e, w2) \<and> HTML eng fs order c w = ([], Some e, w2)
      \<and> (\<exists>done k v m s. e = BindFailed k v \<and> Variables c = Some m \<and> m k = Some v
            \<and> fst (tess_SetVariable eng s (api c) k v) = False
            \<and> calls w2 = calls w @ CInit (api c) None (charLangs c) (charConfig fs c)
                 # CSetImage (api c) (ImagePath c) # map (bind_call c) done
                 @ [CSetVariable (api c) k v])
      \<and> filter extraction_call (calls w2) = filter extraction_call (calls w))
   \<and> (init eng fs c w = (None, w1) \<and> prepare eng order c w1 = (None, w2) \<longrightarrow>
      fst (snd (Text eng fs order c w)) = None \<and> fst (snd (HTML eng fs order c w)) = None
      \<and> calls w2 = calls w @ CInit (api c) None (charLangs c) (charConfig fs c)
           # CSetImage (api c) (ImagePath c) # map (bind_call c) (range_map (Variables c) order)
           @ (case PageSegMode c of None \<Rightarrow> [] | Some m \<Rightarrow> [CSetPageSegMode (api c) (ucast m)])
      \<and> calls (snd (snd (Text eng fs order c w))) = calls w2 @ [CUTF8Text (api c)]
      \<and> calls (snd (snd (HTML eng fs order c w))) = calls w2 @ [CHOCRText (api c)])
   \<and> (init eng fs c w = (None, w1)
        \<and> range_map (Variables c) order = pre @ (k, v) # rest
        \<and> bind_each eng c pre (C_SetImage eng (api c) (ImagePath c) w1) = (None, wd)
        \<and> fst (tess_SetVariable eng (est wd) (api c) k v) = False \<longrightarrow>
      Text eng fs order c w = ([], Some (BindFailed k v), snd (bind eng c k v wd))
      \<and> HTML eng fs order c w = ([], Some (BindFailed k v), snd (bind eng c k v wd))
      \<and> calls (snd (bind eng c k v wd)) =
           calls w @ CInit (api c) None (charLangs c) (charConfig fs c)
             # CSetImage (api c) (ImagePath c) # map (bind_call c) pre
             @ [CSetVariable (api c) k v]
      \<and> filter extraction_call (calls (snd (bind eng c k v wd))) =
           filter extraction_call (calls w))
   \<and> (init eng fs c w = (None, w1)
        \<and> (k, v) \<in> set (range_map (Variables c) order)
        \<and> (\<forall>s. fst (tess_SetVariable eng s (api c) k v) = False) \<longrightarrow>
      (\<exists>k' v' w3. Text eng fs order c w = ([], Some (BindFailed k' v'), w3)
         \<and> HTML eng fs order c w = ([], Some (BindFailed k' v'), w3)
         \<and> filter extraction_call (calls w3) = filter extraction_call (calls w)))"
proof (intro conjI impI)
  assume i: "init eng fs c w = (Some e, w1)"
  show "Text eng fs order c w = ([], Some e, w1)" by (rule Text_init_failed [OF i])
  show "HTML eng fs order c w = ([], Some e, w1)" by (rule HTML_init_failed [OF i])
  show c1: "calls w1 = calls w @ [CInit (api c) None (charLangs c) (charConfig fs c)]"
    by (rule init_calls_eq [OF i])
  show "filter extraction_call (calls w1) = filter extraction_call (calls w)"
    by (simp add: c1)
next
  assume a: "init eng fs c w = (None, w1) \<and> prepare eng order c w1 = (Some e, w2)"
  then have i: "init eng fs c w = (None, w1)" and p: "prepare eng order c w1 = (Some e, w2)"
    by simp_all
  show "Text eng fs order c w = ([], Some e, w2)" by (rule Text_prepare_failed [OF i p])
  show "HTML eng fs order c w = ([], Some e, w2)" by (rule HTML_prepare_failed [OF i p])
  from prepare_failed [OF p] obtain dn k v m s where
    h: "e = BindFailed k v" "Variables c = Some m" "m k = Some v"
       "calls w2 = calls w1 @ CSetImage (api c) (ImagePath c) # map (bind_call c) dn
           @ [CSetVariable (api c) k v]"
       "fst (tess_SetVariable eng s (api c) k v) = False" by blast
  from h(4) init_calls_eq [OF i]
  have c2: "calls w2 = calls w @ CInit (api c) None (charLangs c) (charConfig fs c)
                 # CSetImage (api c) (ImagePath c) # map (bind_call c) dn
                 @ [CSetVariable (api c) k v]" by simp
  with h show "\<exists>done k v m s. e = BindFailed k v \<and> Variables c = Some m \<and> m k = Some v
            \<and> fst (tess_SetVariable eng s (api c) k v) = False
            \<and> calls w2 = calls w @ CInit (api c) None (charLangs c) (charConfig fs c)
                 # CSetImage (api c) (ImagePath c) # map (bind_call c) done
                 @ [CSetVariable (api c) k v]" by blast
  show "filter extraction_call (calls w2) = filter extraction_call (calls w)"
    by (simp add: c2 filter_extraction_bind_calls)
next
  assume a: "init eng fs c w = (None, w1) \<and> prepare eng order c w1 = (None, w2)"
  then have i: "init eng fs c w = (None, w1)" and p: "prepare eng order c w1 = (None, w2)"
    by simp_all
  show "fst (snd (Text eng fs order c w)) = None" by (simp add: Text_success [OF i p])
  show "fst (snd (HTML eng fs order c w)) = None" by (simp add: HTML_success [OF i p])
  from prepare_ok [OF p] init_calls_eq [OF i]
  show "calls w2 = calls w @ CInit (api c) None (charLangs c) (charConfig fs c)
           # CSetImage (api c) (ImagePath c) # map (bind_call c) (range_map (Variables c) order)
           @ (case PageSegMode c of None \<Rightarrow> [] | Some m \<Rightarrow> [CSetPageSegMode (api c) (ucast m)])"
    by simp
  show "calls (snd (snd (Text eng fs order c w))) = calls w2 @ [CUTF8Text (api c)]"
    by (simp add: Text_success [OF i p] C_UTF8Text_calls)
  show "calls (snd (snd (HTML eng fs order c w))) = calls w2 @ [CHOCRText (api c)]"
    by (simp add: HTML_success [OF i p] C_HOCRText_calls)
next
  assume a: "init eng fs c w = (None, w1)
        \<and> range_map (Variables c) order = pre @ (k, v) # rest
        \<and> bind_each eng c pre (C_SetImage eng (api c) (ImagePath c) w1) = (None, wd)
        \<and> fst (tess_SetVariable eng (est wd) (api c) k v) = False"
  then have i: "init eng fs c w = (None, w1)"
    and r: "range_map (Variables c) order = pre @ (k, v) # rest"
    and b: "bind_each eng c pre (C_SetImage eng (api c) (ImagePath c) w1) = (None, wd)"
    and f: "fst (tess_SetVariable eng (est wd) (api c) k v) = False"
    by simp_all
  note p = prepare_first_refusal(1) [OF r b f]
  show "Text eng fs order c w = ([], Some (BindFailed k v), snd (bind eng c k v wd))"
    by (rule Text_prepare_failed [OF i p])
  show "HTML eng fs order c w = ([], Some (BindFailed k v), snd (bind eng c k v wd))"
    by (rule HTML_prepare_failed [OF i p])
  from prepare_first_refusal(2) [OF r b f] init_calls_eq [OF i]
  show c4: "calls (snd (bind eng c k v wd)) =
           calls w @ CInit (api c) None (charLangs c) (charConfig fs c)
             # CSetImage (api c) (ImagePath c) # map (bind_call c) pre
             @ [CSetVariable (api c) k v]"
    by simp
  show "filter extraction_call (calls (snd (bind eng c k v wd))) =
           filter extraction_call (calls w)"
    by (simp add: c4 filter_extraction_bind_calls)
next
  assume a: "init eng fs c w = (None, w1)
        \<and> (k, v) \<in> set (range_map (Variables c) order)
        \<and> (\<forall>s. fst (tess_SetVariable eng s (api c) k v) = False)"
  then have i: "init eng fs c w = (None, w1)"
    and m: "(k, v) \<in> set (range_map (Variables c) order)"
    and f: "\<forall>s. fst (tess_SetVariable eng s (api c) k v) = False"
    by simp_all
  from prepare_refused_everywhere [OF m f, where w = w1] obtain k' v' where
    "fst (prepare eng order c w1) = Some (BindFailed k' v')" by blast
  then obtain w3 where p: "prepare eng order c w1 = (Some (BindFailed k' v'), w3)"
    by (cases "prepare eng order c w1") simp
  from prepare_failed [OF p] obtain dn k2 v2 where
    "calls w3 = calls w1 @ CSetImage (api c) (ImagePath c) # map (bind_call c) dn
           @ [CSetVariable (api c) k2 v2]" by blast
  with init_calls_eq [OF i]
  have "filter extraction_call (calls w3) = filter extraction_call (calls w)"
    by (simp add: filter_extraction_bind_calls)
  with Text_prepare_failed [OF i p] HTML_prepare_failed [OF i p]
  show "\<exists>k' v' w3. Text eng fs order c w = ([], Some (BindFailed k' v'), w3)
         \<and> HTML eng fs order c w = ([], Some (BindFailed k' v'), w3)
         \<and> filter extraction_call (calls w3) = filter extraction_call (calls w)"
    by blast
qed


theorem Text_HTML_return_first_error_witness:
  "Text digits_engine fs_none [] client_xxx world1 =
     ([], Some (InitFailed (- 1)),
      \<lparr>est = False, calls = [CCreate 1, CInit 1 None (Some ''xxx'') None]\<rparr>)
   \<and> HTML digits_engine fs_none [] client_xxx world1 =
     ([], Some (InitFailed (- 1)),
      \<lparr>est = False, calls = [CCreate 1, CInit 1 None (Some ''xxx'') None]\<rparr>)
   \<and> Text digits_engine fs_none [''foo''] client_foo world1 =
     ([], Some (BindFailed ''foo'' ''1''),
      \<lparr>est = False, calls = [CCreate 1, CInit 1 None None None, CSetImage 1 [],
                              CSetVariable 1 ''foo'' ''1'']\<rparr>)
   \<and> HTML digits_engine fs_none [''foo''] client_foo world1 =
     ([], Some (BindFailed ''foo'' ''1''),
      \<lparr>est = False, calls = [CCreate 1, CInit 1 None None None, CSetImage 1 [],
                              CSetVariable 1 ''foo'' ''1'']\<rparr>)
   \<and> Text digits_engine fs_none [''foo'', ''tessedit_char_whitelist''] client_two world1 =
     ([], Some (BindFailed ''foo'' ''1''),
      \<lparr>est = False, calls = [CCreate 1, CInit 1 None None None, CSetImage 1 [],
                              CSetVariable 1 ''foo'' ''1'']\<rparr>)
   \<and> HTML digits_engine fs_none [''tessedit_char_whitelist'', ''foo''] client_two world1 =
     ([], Some (BindFailed ''foo'' ''1''),
      \<lparr>est = False, calls = [CCreate 1, CInit 1 None None None, CSetImage 1 [],
                              CSetVariable 1 ''tessedit_char_whitelist'' ''abc'',
                              CSetVariable 1 ''foo'' ''1'']\<rparr>)
   \<and> (\<exists>k' v' w3.
         Text digits_engine fs_none [''tessedit_char_whitelist'', ''foo''] client_two world1 =
           ([], Some (BindFailed k' v'), w3)
         \<and> filter extraction_call (calls w3) = filter extraction_call (calls world1))"
proof -
  let ?w1 = "\<lparr>est = False, calls = [CCreate 1, CInit 1 None (Some ''xxx'') None]\<rparr>"
  let ?v1 = "\<lparr>est = False, calls = [CCreate 1, CInit 1 None None None]\<rparr>"
  let ?v2 = "\<lparr>est = False, calls = [CCreate 1, CInit 1 None None None, CSetImage 1 [],
                              CSetVariable 1 ''foo'' ''1'']\<rparr>"
  let ?vi = "\<lparr>est = False, calls = [CCreate 1, CInit 1 None None None, CSetImage 1 []]\<rparr>"
  let ?vw = "\<lparr>est = False, calls = [CCreate 1, CInit 1 None None None, CSetImage 1 [],
                              CSetVariable 1 ''tessedit_char_whitelist'' ''abc'']\<rparr>"
  let ?v3 = "\<lparr>est = False, calls = [CCreate 1, CInit 1 None None None, CSetImage 1 [],
                              CSetVariable 1 ''tessedit_char_whitelist'' ''abc'',
                              CSetVariable 1 ''foo'' ''1'']\<rparr>"
  have i1: "init digits_engine fs_none client_xxx world1 = (Some (InitFailed (- 1)), ?w1)"
    by (simp add: init_def C_Init_def charLangs_def strings_Join_def client_xxx_eq client0_fields
        world1_eq digits_engine_def demo_engine_def charConfig_eq fs_none_def)
  have i2: "init digits_engine fs_none client_foo world1 = (None, ?v1)"
    by (simp add: init_def C_Init_def charLangs_def client_foo_eq client0_fields
        world1_eq digits_engine_def demo_engine_def charConfig_eq fs_none_def)
  have p2: "prepare digits_engine [''foo''] client_foo ?v1 = (Some (BindFailed ''foo'' ''1''), ?v2)"
    by (simp add: prepare_def C_SetImage_def range_map_def List.map_filter_def client_foo_eq
        client0_fields digits_engine_def demo_engine_def bind_def C_SetVariable_def)
  have i3: "init digits_engine fs_none client_two world1 = (None, ?v1)"
    by (simp add: init_def C_Init_def charLangs_def client_two_def client0_fields
        world1_eq digits_engine_def demo_engine_def charConfig_eq fs_none_def)
  have a3: "api client_two = 1" "ImagePath client_two = []"
    by (simp_all add: client_two_def client0_fields)
  have r1: "range_map (Variables client_two) [''foo'', ''tessedit_char_whitelist''] =
      [] @ (''foo'', ''1'') # [(''tessedit_char_whitelist'', ''abc'')]"
    by (simp add: range_map_def List.map_filter_def client_two_def)
  have r2: "range_map (Variables client_two) [''tessedit_char_whitelist'', ''foo''] =
      [(''tessedit_char_whitelist'', ''abc'')] @ (''foo'', ''1'') # []"
    by (simp add: range_map_def List.map_filter_def client_two_def)
  have b1: "bind_each digits_engine client_two []
      (C_SetImage digits_engine (api client_two) (ImagePath client_two) ?v1) = (None, ?vi)"
    by (simp add: a3 C_SetImage_def digits_engine_def demo_engine_def)
  have b2: "bind_each digits_engine client_two [(''tessedit_char_whitelist'', ''abc'')]
      (C_SetImage digits_engine (api client_two) (ImagePath client_two) ?v1) = (None, ?vw)"
    by (simp add: a3 C_SetImage_def bind_def C_SetVariable_def digits_engine_def demo_engine_def)
  have f1: "fst (tess_SetVariable digits_engine (est ?vi) (api client_two) ''foo'' ''1'') = False"
    by (simp add: digits_engine_def demo_engine_def)
  have f2: "fst (tess_SetVariable digits_engine (est ?vw) (api client_two) ''foo'' ''1'') = False"
    by (simp add: digits_engine_def demo_engine_def)
  have f3: "\<forall>s. fst (tess_SetVariable digits_engine s (api client_two) ''foo'' ''1'') = False"
    by (simp add: digits_engine_def demo_engine_def)
  have m3: "(''foo'', ''1'') \<in> set (range_map (Variables client_two) [''tessedit_char_whitelist'', ''foo''])"
    by (simp add: r2)
  have e1: "snd (bind digits_engine client_two ''foo'' ''1'' ?vi) = ?v2"
    by (simp add: a3 bind_def C_SetVariable_def digits_engine_def demo_engine_def)
  have e2: "snd (bind digits_engine client_two ''foo'' ''1'' ?vw) = ?v3"
    by (simp add: a3 bind_def C_SetVariable_def digits_engine_def demo_engine_def)
  from Text_HTML_return_first_error
    [where eng = digits_engine and fs = fs_none and c = client_xxx and w = world1
       and e = "InitFailed (- 1)" and ?w1.0 = ?w1 and order = "[]"] i1
  have 1: "Text digits_engine fs_none [] client_xxx world1 = ([], Some (InitFailed (- 1)), ?w1)
    \<and> HTML digits_engine fs_none [] client_xxx world1 = ([], Some (InitFailed (- 1)), ?w1)"
    by blast
  from Text_HTML_return_first_error
    [where eng = digits_engine and fs = fs_none and c = client_foo and w = world1
       and e = "BindFailed ''foo'' ''1''" and ?w1.0 = ?v1 and order = "[''foo'']"
       and ?w2.0 = ?v2] i2 p2
  have 2: "Text digits_engine fs_none [''foo''] client_foo world1 = ([], Some (BindFailed ''foo'' ''1''), ?v2)
    \<and> HTML digits_engine fs_none [''foo''] client_foo world1 = ([], Some (BindFailed ''foo'' ''1''), ?v2)"
    by blast
  from Text_HTML_return_first_error
    [where eng = digits_engine and fs = fs_none and c = client_two and w = world1
       and ?w1.0 = ?v1 and order = "[''foo'', ''tessedit_char_whitelist'']"
       and pre = "[]" and k = "''foo''" and v = "''1''"
       and rest = "[(''tessedit_char_whitelist'', ''abc'')]" and wd = ?vi] i3 r1 b1 f1
  have "Text digits_engine fs_none [''foo'', ''tessedit_char_whitelist''] client_two world1 =
      ([], Some (BindFailed ''foo'' ''1''), snd (bind digits_engine client_two ''foo'' ''1'' ?vi))"
    by blast
  then have 3: "Text digits_engine fs_none [''foo'', ''tessedit_char_whitelist''] client_two world1 =
      ([], Some (BindFailed ''foo'' ''1''), ?v2)"
    by (simp only: e1)
  from Text_HTML_return_first_error
    [where eng = digits_engine and fs = fs_none and c = client_two and w = world1
       and ?w1.0 = ?v1 and order = "[''tessedit_char_whitelist'', ''foo'']"
       and pre = "[(''tessedit_char_whitelist'', ''abc'')]" and k = "''foo''" and v = "''1''"
       and rest = "[]" and wd = ?vw] i3 r2 b2 f2
  have "HTML digits_engine fs_none [''tessedit_char_whitelist'', ''foo''] client_two world1 =
      ([], Some (BindFailed ''foo'' ''1''), snd (bind digits_engine client_two ''foo'' ''1'' ?vw))"
    by blast
  then have 4: "HTML digits_engine fs_none [''tessedit_char_whitelist'', ''foo''] client_two world1 =
      ([], Some (BindFailed ''foo'' ''1''), ?v3)"
    by (simp only: e2)
  from Text_HTML_return_first_error
    [where eng = digits_engine and fs = fs_none and c = client_two and w = world1
       and ?w1.0 = ?v1 and order = "[''tessedit_char_whitelist'', ''foo'']"
       and k = "''foo''" and v = "''1''"] i3 m3 f3
  have 5: "\<exists>k' v' w3.
         Text digits_engine fs_none [''tessedit_char_whitelist'', ''foo''] client_two world1 =
           ([], Some (BindFailed k' v'), w3)
         \<and> filter extraction_call (calls w3) = filter extraction_call (calls world1)"
    by blast
  from 1 2 3 4 5 show ?thesis by blast
qed

section \<open>The parameter file between SetConfigFile and init\<close>

text \<open>
  C2, as stated, fails: a path that SetConfigFile accepted as a file and that is a directory
  when init runs is forwarded to the engine, since charConfig asks only whether
  \<^verbatim>\<open>os.Stat\<close> succeeds.
\<close>

theorem config_file_directory_at_init_counterexample:
  "fst (SetConfigFile fs_file ''cfg'' client0) = None
   \<and> fs_dir ''cfg'' = Some \<lparr>IsDir = True\<rparr>
   \<and> calls (snd (init digits_engine fs_dir (snd (SetConfigFile fs_file ''cfg'' client0)) world1)) =
       [CCreate 1, CInit 1 None None (Some ''cfg'')]"
  by (simp add: init_calls charConfig_eq charLangs_def SetConfigFile_def os_Stat_def fs_file_def
      fs_dir_def client0_fields world1_eq)

text \<open>
  C2, amended. A path that SetConfigFile stored was an existing file that is not a
  directory when it was set. At init, the stored path is forwarded to the engine exactly
  when \<^verbatim>\<open>os.Stat\<close> succeeds on it at that moment, so a forwarded path always exists; no
  directory check is made then. When the file system has for the path what it had when the
  path was set, the forwarded path is an existing file that is not a directory.
\<close>

theorem config_file_exists_when_forwarded:
  assumes "SetConfigFile fs fpath c = (None, c1)"
  shows "(\<exists>info. fs fpath = Some info \<and> \<not> IsDir info)
     \<and> ConfigFilePath c1 = fpath
     \<and> calls (snd (init eng fs' c1 w)) =
         calls w @ [CInit (api c1) None (charLangs c1)
                      (if fs' fpath = None then None else Some fpath)]
     \<and> (fs' fpath = fs fpath \<longrightarrow>
          charConfig fs' c1 = Some fpath \<and> (\<exists>info. fs' fpath = Some info \<and> \<not> IsDir info))"
proof -
  from assms have 1: "\<exists>info. fs fpath = Some info \<and> \<not> IsDir info"
    by (auto simp: SetConfigFile_def os_Stat_def split: option.splits if_splits)
  from assms have 2: "ConfigFilePath c1 = fpath"
    by (auto simp: SetConfigFile_def os_Stat_def split: option.splits if_splits)
  have 3: "calls (snd (init eng fs' c1 w)) =
         calls w @ [CInit (api c1) None (charLangs c1)
                      (if fs' fpath = None then None else Some fpath)]"
    using 2 by (simp add: init_calls charConfig_eq)
  have 4: "fs' fpath = fs fpath \<longrightarrow>
          charConfig fs' c1 = Some fpath \<and> (\<exists>info. fs' fpath = Some info \<and> \<not> IsDir info)"
    using 1 2 by (auto simp: charConfig_eq)
  from 1 2 3 4 show ?thesis by blast
qed

theorem config_file_exists_when_forwarded_witness:
  "calls (snd (init digits_engine fs_file client_cfg world1)) =
     [CCreate 1, CInit 1 None None (Some ''cfg'')]
   \<and> calls (snd (init digits_engine fs_none client_cfg world1)) =
     [CCreate 1, CInit 1 None None None]
   \<and> charConfig fs_file client_cfg = Some ''cfg''"
proof -
  have h: "SetConfigFile fs_file ''cfg'' client0 = (None, client_cfg)"
    by (simp add: client_cfg_def SetConfigFile_def os_Stat_def fs_file_def)
  have a: "api client_cfg = 1" "charLangs client_cfg = None" "calls world1 = [CCreate 1]"
    by (simp_all add: client_cfg_eq client0_fields charLangs_def world1_eq)
  have f: "fs_file ''cfg'' \<noteq> None" "fs_none ''cfg'' = None"
    by (simp_all add: fs_file_def fs_none_def)
  from config_file_exists_when_forwarded [OF h, where fs' = fs_file and eng = digits_engine and w = world1] a f
  have 1: "calls (snd (init digits_engine fs_file client_cfg world1)) =
     [CCreate 1, CInit 1 None None (Some ''cfg'')] \<and> charConfig fs_file client_cfg = Some ''cfg''"
    by simp
  from config_file_exists_when_forwarded [OF h, where fs' = fs_none and eng = digits_engine and w = world1] a f
  have 2: "calls (snd (init digits_engine fs_none client_cfg world1)) =
     [CCreate 1, CInit 1 None None None]"
    by simp
  from 1 2 show ?thesis by blast
qed

section \<open>Operations after Close\<close>




section \<open>Text called twice\<close>




end
